theory Spec2Isabelle
  imports Main "HOL-Library.Word"
begin

unbundle bit_operations_syntax

section \<open>Machine integers and outcomes\<close>

text \<open>
  The program is C++ (\<^verbatim>\<open>src/main.cpp\<close>). Its \<^verbatim>\<open>int\<close> and \<^verbatim>\<open>unsigned\<close> are 32-bit words
  (\<open>sint\<close> reads an \<^verbatim>\<open>int\<close>), its \<^verbatim>\<open>std::uint64_t\<close> and \<^verbatim>\<open>std::size_t\<close> are 64-bit
  words (\<open>uint\<close>/\<open>unat\<close> read them; \<open>+\<close> wraps around). The conversion
  \<^verbatim>\<open>static_cast<std::uint64_t>(int)\<close> is sign extension, \<open>scast\<close>.
\<close>

type_synonym int32 = "32 word"
type_synonym uint32 = "32 word"
type_synonym uint64 = "64 word"

text \<open>
  The ways a call can end other than by returning: the exception of
  \<^verbatim>\<open>std::vector::reserve\<close>, and the two places where the C++ standard leaves the
  behaviour undefined (a distribution built on an empty range, line 22; the
  dereference of the end iterator, line 112).
\<close>

datatype fault = Length_error | Undefined_dist_range | Undefined_deref_end

section \<open>The random number library\<close>

text \<open>
  \<^verbatim>\<open>std::mt19937\<close>, \<^verbatim>\<open>std::seed_seq\<close> and \<^verbatim>\<open>std::uniform_int_distribution<int>\<close> belong
  to the C++ standard library, not to this program, so they are a parameter: an engine
  state of any type \<open>'e\<close>, the construction of an engine from the words of a seed
  sequence, and the distribution, which takes the bounds and the engine and returns the
  drawn value with the advanced engine.
\<close>

record 'e random_lib =
  seed_engine :: "uint32 list \<Rightarrow> 'e"
  dist :: "int32 \<Rightarrow> int32 \<Rightarrow> 'e \<Rightarrow> int32 \<times> 'e"

text \<open>
  What the standard promises of \<^verbatim>\<open>uniform_int_distribution(a, b)\<close>: on \<open>a \<le> b\<close>
  every value it produces lies in the closed interval. Nothing is promised otherwise.
\<close>

definition dist_contract :: "'e random_lib \<Rightarrow> bool" where
  "dist_contract lib \<longleftrightarrow>
     (\<forall>low high e. sint low \<le> sint high \<longrightarrow>
        sint low \<le> sint (fst (dist lib low high e)) \<and>
        sint (fst (dist lib low high e)) \<le> sint high)"

text \<open>
  The readings of \<^verbatim>\<open>std::random_device\<close> and of the clock that one construction of a
  \<^verbatim>\<open>ThreadRNG\<close> makes (lines 29 to 33): the first \<^verbatim>\<open>rd()\<close>, the clock truncated to
  \<^verbatim>\<open>unsigned\<close>, the second \<^verbatim>\<open>rd()\<close>.
\<close>

record entropy =
  rd_first :: uint32
  now :: uint32
  rd_second :: uint32

text \<open>An instance of the library for running the model: the engine is a counter
  that starts at the sum of the seed words, and the distribution alternates between the
  two bounds.\<close>

definition alternating_lib :: "uint32 random_lib" where
  "alternating_lib =
     \<lparr> seed_engine = (\<lambda>ws. sum_list ws),
       dist = (\<lambda>low high e. (if e AND 1 = 0 then low else high, e + 1)) \<rparr>"

section \<open>ThreadRNG\<close>

text \<open>The private members keep their names with the suffix \<open>m\<close> after the underscore
  (\<^verbatim>\<open>eng_\<close> is \<open>eng_m\<close>, and so on).\<close>

record 'e ThreadRNG =
  eng_m :: 'e

definition make_seed :: "'e random_lib \<Rightarrow> entropy \<Rightarrow> uint32 \<Rightarrow> 'e" where
  "make_seed lib env seed_hint =
     seed_engine lib
       [rd_first env, now env, seed_hint, rd_second env, now env XOR 0x9e3779b9]"

definition ThreadRNG_ctor :: "'e random_lib \<Rightarrow> entropy \<Rightarrow> uint32 \<Rightarrow> 'e ThreadRNG" where
  "ThreadRNG_ctor lib env seed_hint = \<lparr> eng_m = make_seed lib env seed_hint \<rparr>"

text \<open>Line 22 builds the distribution on \<open>(low, high)\<close>, which the standard
  requires to satisfy \<open>low \<le> high\<close>; line 23 draws from it and advances the engine.\<close>

definition uniform_int ::
  "'e random_lib \<Rightarrow> int32 \<Rightarrow> int32 \<Rightarrow> 'e ThreadRNG \<Rightarrow> fault + (int32 \<times> 'e ThreadRNG)" where
  "uniform_int lib low high rng =
     (if sint low \<le> sint high
      then (case dist lib low high (eng_m rng) of (v, e') \<Rightarrow> Inr (v, rng\<lparr>eng_m := e'\<rparr>))
      else Inl Undefined_dist_range)"

section \<open>SumTask\<close>

record Config =
  id_cfg :: int32
  samples :: int32
  min_val :: int32
  max_val :: int32

record SumTask =
  cfg_m :: Config
  result_m :: uint64

definition SumTask_ctor :: "Config \<Rightarrow> SumTask" where
  "SumTask_ctor cfg = \<lparr> cfg_m = cfg, result_m = 0 \<rparr>"

definition id_task :: "SumTask \<Rightarrow> int32" where
  "id_task t = id_cfg (cfg_m t)"

definition result :: "SumTask \<Rightarrow> uint64" where
  "result t = result_m t"

text \<open>The loop of lines 59 to 61, from the state \<open>(i, rng, acc)\<close>.\<close>

function sum_loop ::
  "'e random_lib \<Rightarrow> Config \<Rightarrow> int32 \<Rightarrow> 'e ThreadRNG \<Rightarrow> uint64 \<Rightarrow> fault + uint64" where
  "sum_loop lib cfg i rng acc =
     (if sint i < sint (samples cfg)
      then (case uniform_int lib (min_val cfg) (max_val cfg) rng of
              Inl f \<Rightarrow> Inl f
            | Inr (v, rng') \<Rightarrow> sum_loop lib cfg (i + 1) rng' (acc + scast v))
      else Inr acc)"
  by pat_completeness auto

lemma sint_succ_below:
  fixes i b :: int32
  assumes "sint i < sint b"
  shows "sint (i + 1) = sint i + 1"
proof -
  have "sint b < 2 ^ 31" using sint_lt [of b] by simp
  moreover have "- (2 ^ 31) \<le> sint i" using sint_ge [of i] by simp
  ultimately have "signed_take_bit 31 (sint i + 1) = sint i + 1"
    using assms by (intro signed_take_bit_int_eq_self) auto
  then show ?thesis by (simp add: sint_word_ariths)
qed

termination sum_loop
  by (relation "measure (\<lambda>(lib, cfg, i, rng, acc). nat (sint (samples cfg) - sint i))")
     (auto simp: sint_succ_below)

text \<open>\<^verbatim>\<open>SumTask::operator()\<close>, lines 56 to 63, run with the given readings of the
  entropy source and the clock.\<close>

definition run :: "'e random_lib \<Rightarrow> entropy \<Rightarrow> SumTask \<Rightarrow> fault + SumTask" where
  "run lib env t =
     (let rng = ThreadRNG_ctor lib env (id_cfg (cfg_m t)) in
      case sum_loop lib (cfg_m t) 0 rng 0 of
        Inl f \<Rightarrow> Inl f
      | Inr acc \<Rightarrow> Inr (t\<lparr>result_m := acc\<rparr>))"

section \<open>SumCoordinator\<close>

text \<open>
  Exhaustion of resources (an allocation that fails, a thread that cannot be started, an
  entropy source that cannot be opened) is outside the model: every allocation and every
  thread start succeeds.
\<close>

text \<open>
  A \<^verbatim>\<open>std::thread\<close> handle: the task it was started on (\<^verbatim>\<open>std::ref(task)\<close>, as the
  index of that task in \<^verbatim>\<open>tasks_\<close>) and whether it is still joinable.
\<close>

record thread =
  target :: nat
  joinable :: bool

record SumCoordinator =
  tasks_m :: "SumTask list"
  threads_m :: "thread list"

text \<open>
  \<^verbatim>\<open>std::vector<SumTask>::max_size()\<close>. The standard library computes it as
  \<^verbatim>\<open>PTRDIFF_MAX / sizeof(SumTask)\<close>; a \<^verbatim>\<open>SumTask\<close> is four \<^verbatim>\<open>int\<close>s and one
  \<^verbatim>\<open>uint64_t\<close>, 24 bytes. The proofs use only that it lies between \<open>2 ^ 31\<close> and
  \<open>2 ^ 64 - 2 ^ 31\<close>.
\<close>

definition vector_max_size :: uint64 where
  "vector_max_size = 0x7FFFFFFFFFFFFFFF div 24"

text \<open>The loop of lines 80 to 82, from the state \<open>(i, tasks_)\<close>.\<close>

function ctor_loop ::
  "int32 \<Rightarrow> int32 \<Rightarrow> int32 \<Rightarrow> int32 \<Rightarrow> int32 \<Rightarrow> SumTask list \<Rightarrow> SumTask list" where
  "ctor_loop thread_count samples_per_thread minv maxv i ts =
     (if sint i < sint thread_count
      then ctor_loop thread_count samples_per_thread minv maxv (i + 1)
             (ts @ [SumTask_ctor \<lparr> id_cfg = i, samples = samples_per_thread,
                                   min_val = minv, max_val = maxv \<rparr>])
      else ts)"
  by pat_completeness auto
termination
  by (relation "measure (\<lambda>(tc, s, mn, mx, i, ts). nat (sint tc - sint i))")
     (auto simp: sint_succ_below)

text \<open>
  The constructor, lines 78 to 83. Line 79 converts \<^verbatim>\<open>thread_count\<close> to
  \<^verbatim>\<open>std::size_t\<close> (sign extension) and \<^verbatim>\<open>reserve\<close> throws \<^verbatim>\<open>std::length_error\<close>
  when the request exceeds \<^verbatim>\<open>max_size()\<close>. Nothing else in the constructor can fail.
\<close>

definition SumCoordinator_ctor ::
  "int32 \<Rightarrow> int32 \<Rightarrow> int32 \<Rightarrow> int32 \<Rightarrow> fault + SumCoordinator" where
  "SumCoordinator_ctor thread_count samples_per_thread minv maxv =
     (if vector_max_size < (scast thread_count :: uint64)
      then Inl Length_error
      else Inr \<lparr> tasks_m = ctor_loop thread_count samples_per_thread minv maxv 0 [],
                 threads_m = [] \<rparr>)"

text \<open>The first loop of \<^verbatim>\<open>run_all\<close>, lines 87 to 89: one new handle per task, appended
  in task order.\<close>

definition spawn_all :: "SumCoordinator \<Rightarrow> SumCoordinator" where
  "spawn_all c =
     c\<lparr>threads_m :=
         fold (\<lambda>k hs. hs @ [\<lparr> target = k, joinable = True \<rparr>])
           [0 ..< length (tasks_m c)] (threads_m c)\<rparr>"

text \<open>
  The second loop, lines 90 to 92. A thread reads the configuration of its own task and
  writes the result of its own task only, so the state after all the joins does not
  depend on how the threads interleave; the effect of a thread on its task is applied
  where the thread is joined. \<open>env k\<close> gives the entropy and clock readings of the
  thread started on task \<open>k\<close>. A handle that is not joinable is skipped.
\<close>

fun join_all ::
  "'e random_lib \<Rightarrow> (nat \<Rightarrow> entropy) \<Rightarrow> thread list \<Rightarrow> SumTask list \<Rightarrow>
     fault + (thread list \<times> SumTask list)" where
  "join_all lib env [] ts = Inr ([], ts)"
| "join_all lib env (h # hs) ts =
     (if joinable h
      then (case run lib (env (target h)) (ts ! target h) of
              Inl f \<Rightarrow> Inl f
            | Inr t' \<Rightarrow>
                (case join_all lib env hs (ts[target h := t']) of
                   Inl f \<Rightarrow> Inl f
                 | Inr (hs', ts') \<Rightarrow> Inr (h\<lparr>joinable := False\<rparr> # hs', ts')))
      else (case join_all lib env hs ts of
              Inl f \<Rightarrow> Inl f
            | Inr (hs', ts') \<Rightarrow> Inr (h # hs', ts')))"

definition run_all ::
  "'e random_lib \<Rightarrow> (nat \<Rightarrow> entropy) \<Rightarrow> SumCoordinator \<Rightarrow> fault + SumCoordinator" where
  "run_all lib env c =
     (let c1 = spawn_all c in
      case join_all lib env (threads_m c1) (tasks_m c1) of
        Inl f \<Rightarrow> Inl f
      | Inr (hs, ts) \<Rightarrow> Inr \<lparr> tasks_m = ts, threads_m = hs \<rparr>)"

text \<open>\<^verbatim>\<open>summaries\<close>, lines 96 to 103.\<close>

definition summaries :: "SumCoordinator \<Rightarrow> (int32 \<times> uint64) list" where
  "summaries c = fold (\<lambda>task out. out @ [(id_task task, result task)]) (tasks_m c) []"

text \<open>
  \<^verbatim>\<open>std::max_element(first, last, comp)\<close> on a vector, with iterators as indices: it
  returns \<open>last\<close> on the empty range, and otherwise scans from the second element,
  moving \<open>largest\<close> to \<open>first\<close> whenever \<open>cmp\<close> puts the element at \<open>largest\<close>
  before the element at \<open>first\<close>. The scan starts inside the range, so its test that
  the advanced iterator differs from \<open>last\<close> is the test that the index \<open>Suc first\<close>
  is below the length.
\<close>

function max_element_loop :: "('a \<Rightarrow> 'a \<Rightarrow> bool) \<Rightarrow> 'a list \<Rightarrow> nat \<Rightarrow> nat \<Rightarrow> nat" where
  "max_element_loop cmp xs largest first =
     (if Suc first < length xs
      then max_element_loop cmp xs
             (if cmp (xs ! largest) (xs ! Suc first) then Suc first else largest)
             (Suc first)
      else largest)"
  by pat_completeness auto
termination
  by (relation "measure (\<lambda>(cmp, xs, largest, first). length xs - first)") auto

definition max_element :: "('a \<Rightarrow> 'a \<Rightarrow> bool) \<Rightarrow> 'a list \<Rightarrow> nat" where
  "max_element cmp xs = (if xs = [] then length xs else max_element_loop cmp xs 0 0)"

text \<open>\<^verbatim>\<open>best\<close>, lines 106 to 113. Line 112 dereferences the iterator, which is defined
  only for an iterator into the vector.\<close>

definition best :: "SumCoordinator \<Rightarrow> fault + (int32 \<times> uint64)" where
  "best c =
     (let it = max_element (\<lambda>a b. result a < result b) (tasks_m c) in
      if it < length (tasks_m c)
      then Inr (id_task (tasks_m c ! it), result (tasks_m c ! it))
      else Inl Undefined_deref_end)"

section \<open>Specification-side definitions\<close>

text \<open>
  The values that the loop of lines 59 to 61 draws, in order: the recursion of
  \<open>sum_loop\<close>, collecting each drawn value instead of adding it.
\<close>

function loop_draws :: "'e random_lib \<Rightarrow> Config \<Rightarrow> int32 \<Rightarrow> 'e ThreadRNG \<Rightarrow> int32 list" where
  "loop_draws lib cfg i rng =
     (if sint i < sint (samples cfg)
      then (case uniform_int lib (min_val cfg) (max_val cfg) rng of
              Inl f \<Rightarrow> []
            | Inr (v, rng') \<Rightarrow> v # loop_draws lib cfg (i + 1) rng')
      else [])"
  by pat_completeness auto
termination
  by (relation "measure (\<lambda>(lib, cfg, i, rng). nat (sint (samples cfg) - sint i))")
     (auto simp: sint_succ_below)

definition draws :: "'e random_lib \<Rightarrow> entropy \<Rightarrow> SumTask \<Rightarrow> int32 list" where
  "draws lib env t =
     loop_draws lib (cfg_m t) 0 (ThreadRNG_ctor lib env (id_cfg (cfg_m t)))"

text \<open>The sum of the drawn values as the specification means it: over the unbounded
  integers, each value read as the signed \<^verbatim>\<open>int\<close> it is.\<close>

definition exact_sum :: "'e random_lib \<Rightarrow> entropy \<Rightarrow> SumTask \<Rightarrow> int" where
  "exact_sum lib env t = sum_list (map sint (draws lib env t))"

text \<open>
  That no step of the loop wraps around: the converted value is the drawn value (the
  conversion of a negative \<^verbatim>\<open>int\<close> adds \<open>2 ^ 64\<close>) and the addition to the
  accumulator does not carry out of 64 bits. It follows \<open>sum_loop\<close> from the same
  state.
\<close>

function no_wrap :: "'e random_lib \<Rightarrow> Config \<Rightarrow> int32 \<Rightarrow> 'e ThreadRNG \<Rightarrow> uint64 \<Rightarrow> bool" where
  "no_wrap lib cfg i rng acc =
     (if sint i < sint (samples cfg)
      then (case uniform_int lib (min_val cfg) (max_val cfg) rng of
              Inl f \<Rightarrow> True
            | Inr (v, rng') \<Rightarrow>
                0 \<le> sint v \<and> uint acc + sint v < 2 ^ 64 \<and>
                no_wrap lib cfg (i + 1) rng' (acc + scast v))
      else True)"
  by pat_completeness auto
termination
  by (relation "measure (\<lambda>(lib, cfg, i, rng, acc). nat (sint (samples cfg) - sint i))")
     (auto simp: sint_succ_below)

text \<open>The task that the constructor builds at position \<open>k\<close>.\<close>

definition task_at :: "int32 \<Rightarrow> int32 \<Rightarrow> int32 \<Rightarrow> nat \<Rightarrow> SumTask" where
  "task_at s mn mx k =
     SumTask_ctor \<lparr> id_cfg = word_of_nat k, samples = s, min_val = mn, max_val = mx \<rparr>"

section \<open>Facts about the loops\<close>

declare sum_loop.simps [simp del]
declare ctor_loop.simps [simp del]
declare loop_draws.simps [simp del]
declare no_wrap.simps [simp del]
declare max_element_loop.simps [simp del]

lemma fold_snoc_map: "fold (\<lambda>x out. out @ [f x]) xs acc = acc @ map f xs"
  by (induction xs arbitrary: acc) simp_all

lemma summaries_map: "summaries c = map (\<lambda>t. (id_task t, result t)) (tasks_m c)"
  by (simp add: summaries_def fold_snoc_map)

lemma spawn_all_eq:
  "spawn_all c = c\<lparr>threads_m := threads_m c @ map (\<lambda>k. \<lparr> target = k, joinable = True \<rparr>) [0 ..< length (tasks_m c)]\<rparr>"
  by (simp add: spawn_all_def fold_snoc_map)

lemma word_of_nat_sint:
  fixes i :: int32
  assumes "0 \<le> sint i"
  shows "word_of_nat (nat (sint i)) = i"
proof -
  have "(word_of_nat (nat (sint i)) :: int32) = word_of_int (int (nat (sint i)))"
    by (simp only: of_int_of_nat_eq)
  also have "\<dots> = word_of_int (sint i)" using assms by simp
  also have "\<dots> = i" by simp
  finally show ?thesis .
qed

lemma upt_sint_step:
  fixes i tc :: int32
  assumes "0 \<le> sint i" "sint i < sint tc"
  shows "[nat (sint i) ..< nat (sint tc)] = nat (sint i) # [nat (sint (i + 1)) ..< nat (sint tc)]"
proof -
  have "nat (sint (i + 1)) = Suc (nat (sint i))"
    using assms sint_succ_below [OF assms(2)] by simp
  moreover have "nat (sint i) < nat (sint tc)" using assms by simp
  ultimately show ?thesis by (simp only: upt_conv_Cons)
qed

lemma ctor_loop_eq:
  "0 \<le> sint i \<Longrightarrow> sint i \<le> sint tc \<Longrightarrow>
   ctor_loop tc s mn mx i ts = ts @ map (task_at s mn mx) [nat (sint i) ..< nat (sint tc)]"
proof (induction tc s mn mx i ts rule: ctor_loop.induct)
  case (1 tc s mn mx i ts)
  let ?t = "SumTask_ctor \<lparr> id_cfg = i, samples = s, min_val = mn, max_val = mx \<rparr>"
  show ?case
  proof (cases "sint i < sint tc")
    case True
    have step: "sint (i + 1) = sint i + 1" using True by (rule sint_succ_below)
    have a: "0 \<le> sint (i + 1)" and b: "sint (i + 1) \<le> sint tc"
      using True "1.prems" step by simp_all
    have "ctor_loop tc s mn mx (i + 1) (ts @ [?t])
        = (ts @ [?t]) @ map (task_at s mn mx) [nat (sint (i + 1)) ..< nat (sint tc)]"
      using True a b by (rule "1.IH")
    moreover have "task_at s mn mx (nat (sint i)) = ?t"
      using "1.prems" by (simp add: task_at_def word_of_nat_sint)
    moreover have "ctor_loop tc s mn mx i ts = ctor_loop tc s mn mx (i + 1) (ts @ [?t])"
      using True by (subst ctor_loop.simps) (simp only: if_True)
    ultimately show ?thesis
      using upt_sint_step [OF "1.prems"(1) True] by simp
  next
    case False
    with "1.prems" have "sint i = sint tc" by simp
    moreover have "ctor_loop tc s mn mx i ts = ts"
      using False by (subst ctor_loop.simps) (simp only: if_False)
    ultimately show ?thesis by simp
  qed
qed

lemma scast_uint_nonneg:
  fixes tc :: int32
  assumes "0 \<le> sint tc"
  shows "uint (scast tc :: uint64) = sint tc"
proof -
  have "sint tc < 2 ^ 31" using sint_lt [of tc] by simp
  then have lt: "sint tc < 2 ^ 64" by simp
  have "(scast tc :: uint64) = word_of_int (sint tc)" by simp
  then have "uint (scast tc :: uint64) = sint tc mod 2 ^ 64"
    by (simp only: uint_word_of_int) simp
  then show ?thesis using assms lt by simp
qed

lemma scast_uint_neg:
  fixes tc :: int32
  assumes "sint tc < 0"
  shows "uint (scast tc :: uint64) = 2 ^ 64 + sint tc"
proof -
  have ge: "- (2 ^ 31) \<le> sint tc" using sint_ge [of tc] by simp
  have "(scast tc :: uint64) = word_of_int (sint tc)" by simp
  then have "uint (scast tc :: uint64) = sint tc mod 2 ^ 64"
    by (simp only: uint_word_of_int) simp
  also have "\<dots> = (sint tc + 2 ^ 64) mod 2 ^ 64" by simp
  also have "\<dots> = sint tc + 2 ^ 64" using ge assms by (intro mod_pos_pos_trivial) auto
  finally show ?thesis by simp
qed

lemma uint_vector_max_size: "uint vector_max_size = 384307168202282325"
  by (simp add: vector_max_size_def)

lemma reserve_ok:
  fixes tc :: int32
  assumes "0 \<le> sint tc"
  shows "\<not> vector_max_size < (scast tc :: uint64)"
proof -
  have "sint tc < 2 ^ 31" using sint_lt [of tc] by simp
  then show ?thesis
    using scast_uint_nonneg [OF assms] by (simp add: word_less_def uint_vector_max_size)
qed

lemma reserve_throws:
  fixes tc :: int32
  assumes "sint tc < 0"
  shows "vector_max_size < (scast tc :: uint64)"
proof -
  have "- (2 ^ 31) \<le> sint tc" using sint_ge [of tc] by simp
  then show ?thesis
    using scast_uint_neg [OF assms] by (simp add: word_less_def uint_vector_max_size)
qed

lemma ctor_nonneg:
  "0 \<le> sint tc \<Longrightarrow>
   SumCoordinator_ctor tc s mn mx =
     Inr \<lparr> tasks_m = map (task_at s mn mx) [0 ..< nat (sint tc)], threads_m = [] \<rparr>"
  using ctor_loop_eq [of 0 tc s mn mx "[]"]
  by (simp add: SumCoordinator_ctor_def reserve_ok)

lemma ctor_neg: "sint tc < 0 \<Longrightarrow> SumCoordinator_ctor tc s mn mx = Inl Length_error"
  by (simp add: SumCoordinator_ctor_def reserve_throws)

lemma ctor_Inr_iff:
  "SumCoordinator_ctor tc s mn mx = Inr c \<longleftrightarrow>
     0 \<le> sint tc \<and>
     c = \<lparr> tasks_m = map (task_at s mn mx) [0 ..< nat (sint tc)], threads_m = [] \<rparr>"
proof (cases "0 \<le> sint tc")
  case True
  then show ?thesis by (auto simp: ctor_nonneg)
next
  case False
  then have "SumCoordinator_ctor tc s mn mx = Inl Length_error"
    by (simp add: ctor_neg)
  with False show ?thesis by simp
qed

lemma sint_word_of_nat_small:
  assumes "k < 2 ^ 31"
  shows "sint (word_of_nat k :: int32) = int k"
proof -
  have "sint (word_of_nat k :: int32) = signed_take_bit 31 (int k)"
    by (simp add: signed_of_nat)
  also have "\<dots> = int k" using assms by (intro signed_take_bit_int_eq_self) auto
  finally show ?thesis by simp
qed

lemma nat_sint_bound: "nat (sint (tc :: int32)) < 2 ^ 31"
  using sint_lt [of tc] by simp

subsection \<open>The summing loop\<close>

lemma uniform_int_ok:
  "sint low \<le> sint high \<Longrightarrow>
   uniform_int lib low high rng =
     Inr (fst (dist lib low high (eng_m rng)), rng\<lparr>eng_m := snd (dist lib low high (eng_m rng))\<rparr>)"
  by (simp add: uniform_int_def split: prod.splits)

lemma uniform_int_bad:
  "\<not> sint low \<le> sint high \<Longrightarrow> uniform_int lib low high rng = Inl Undefined_dist_range"
  by (simp add: uniform_int_def)

lemma sum_loop_eq:
  assumes "sint (min_val cfg) \<le> sint (max_val cfg)"
  shows "sum_loop lib cfg i rng acc =
           Inr (acc + word_of_int (sum_list (map sint (loop_draws lib cfg i rng))))"
  using assms
proof (induction lib cfg i rng acc rule: sum_loop.induct)
  case (1 lib cfg i rng acc)
  show ?case
  proof (cases "sint i < sint (samples cfg)")
    case False
    then show ?thesis
      by (subst sum_loop.simps, subst loop_draws.simps) simp
  next
    case True
    let ?v = "fst (dist lib (min_val cfg) (max_val cfg) (eng_m rng))"
    let ?rng = "rng\<lparr>eng_m := snd (dist lib (min_val cfg) (max_val cfg) (eng_m rng))\<rparr>"
    have u: "uniform_int lib (min_val cfg) (max_val cfg) rng = Inr (?v, ?rng)"
      using "1.prems" by (rule uniform_int_ok)
    have ih: "sum_loop lib cfg (i + 1) ?rng (acc + scast ?v) =
        Inr (acc + scast ?v + word_of_int (sum_list (map sint (loop_draws lib cfg (i + 1) ?rng))))"
      using True u "1.prems" by (intro "1.IH") auto
    have s: "sum_loop lib cfg i rng acc = sum_loop lib cfg (i + 1) ?rng (acc + scast ?v)"
      by (subst sum_loop.simps) (simp add: True u)
    have d: "loop_draws lib cfg i rng = ?v # loop_draws lib cfg (i + 1) ?rng"
      by (subst loop_draws.simps) (simp add: True u)
    have "(scast ?v :: uint64) = word_of_int (sint ?v)" by simp
    then show ?thesis unfolding s ih d by (simp add: algebra_simps)
  qed
qed

lemma loop_draws_length:
  assumes "sint (min_val cfg) \<le> sint (max_val cfg)"
  shows "length (loop_draws lib cfg i rng) = nat (sint (samples cfg) - sint i)"
  using assms
proof (induction lib cfg i rng rule: loop_draws.induct)
  case (1 lib cfg i rng)
  show ?case
  proof (cases "sint i < sint (samples cfg)")
    case False
    then show ?thesis by (subst loop_draws.simps) simp
  next
    case True
    let ?v = "fst (dist lib (min_val cfg) (max_val cfg) (eng_m rng))"
    let ?rng = "rng\<lparr>eng_m := snd (dist lib (min_val cfg) (max_val cfg) (eng_m rng))\<rparr>"
    have u: "uniform_int lib (min_val cfg) (max_val cfg) rng = Inr (?v, ?rng)"
      using "1.prems" by (rule uniform_int_ok)
    have ih: "length (loop_draws lib cfg (i + 1) ?rng) = nat (sint (samples cfg) - sint (i + 1))"
      using True u "1.prems" by (intro "1.IH") auto
    have d: "loop_draws lib cfg i rng = ?v # loop_draws lib cfg (i + 1) ?rng"
      by (subst loop_draws.simps) (simp add: True u)
    show ?thesis unfolding d using ih True sint_succ_below [OF True] by simp
  qed
qed

lemma loop_draws_range:
  assumes "sint (min_val cfg) \<le> sint (max_val cfg)" and "dist_contract lib"
  shows "\<forall>d \<in> set (loop_draws lib cfg i rng).
           sint (min_val cfg) \<le> sint d \<and> sint d \<le> sint (max_val cfg)"
  using assms
proof (induction lib cfg i rng rule: loop_draws.induct)
  case (1 lib cfg i rng)
  show ?case
  proof (cases "sint i < sint (samples cfg)")
    case False
    then show ?thesis by (subst loop_draws.simps) simp
  next
    case True
    let ?v = "fst (dist lib (min_val cfg) (max_val cfg) (eng_m rng))"
    let ?rng = "rng\<lparr>eng_m := snd (dist lib (min_val cfg) (max_val cfg) (eng_m rng))\<rparr>"
    have u: "uniform_int lib (min_val cfg) (max_val cfg) rng = Inr (?v, ?rng)"
      using "1.prems"(1) by (rule uniform_int_ok)
    have ih: "\<forall>d \<in> set (loop_draws lib cfg (i + 1) ?rng).
           sint (min_val cfg) \<le> sint d \<and> sint d \<le> sint (max_val cfg)"
      using True u "1.prems" by (intro "1.IH") auto
    have d: "loop_draws lib cfg i rng = ?v # loop_draws lib cfg (i + 1) ?rng"
      by (subst loop_draws.simps) (simp add: True u)
    have "sint (min_val cfg) \<le> sint ?v \<and> sint ?v \<le> sint (max_val cfg)"
      using "1.prems" unfolding dist_contract_def by blast
    then show ?thesis unfolding d using ih by simp
  qed
qed

lemma loop_draws_none: "sint (samples cfg) \<le> sint i \<Longrightarrow> loop_draws lib cfg i rng = []"
  by (subst loop_draws.simps) simp

lemma sum_loop_none: "sint (samples cfg) \<le> sint i \<Longrightarrow> sum_loop lib cfg i rng acc = Inr acc"
  by (subst sum_loop.simps) simp

lemma run_eq:
  assumes "sint (min_val (cfg_m t)) \<le> sint (max_val (cfg_m t))"
  shows "run lib env t = Inr (t\<lparr>result_m := word_of_int (exact_sum lib env t)\<rparr>)"
  by (simp add: run_def exact_sum_def draws_def Let_def sum_loop_eq [OF assms])

lemma run_inverted_range_faults:
  assumes "sint (max_val (cfg_m t)) < sint (min_val (cfg_m t))"
    and "0 < sint (samples (cfg_m t))"
  shows "run lib env t = Inl Undefined_dist_range"
proof -
  have "\<not> sint (min_val (cfg_m t)) \<le> sint (max_val (cfg_m t))" using assms(1) by simp
  then have "uniform_int lib (min_val (cfg_m t)) (max_val (cfg_m t)) rng = Inl Undefined_dist_range"
    for rng by (rule uniform_int_bad)
  then have "sum_loop lib (cfg_m t) 0 rng 0 = Inl Undefined_dist_range" for rng
    using assms(2) by (subst sum_loop.simps) simp
  then show ?thesis by (simp add: run_def Let_def)
qed

lemma run_cfg: "run lib env t = Inr t' \<Longrightarrow> cfg_m t' = cfg_m t"
  by (auto simp: run_def Let_def split: sum.splits)

lemma sum_list_bounds:
  fixes xs :: "int list"
  assumes "\<forall>x \<in> set xs. lo \<le> x \<and> x \<le> hi"
  shows "lo * int (length xs) \<le> sum_list xs \<and> sum_list xs \<le> hi * int (length xs)"
  using assms by (induction xs) (auto simp: algebra_simps)

lemma alternating_lib_contract: "dist_contract alternating_lib"
  by (simp add: dist_contract_def alternating_lib_def)

lemma draws_length:
  assumes "sint (min_val (cfg_m t)) \<le> sint (max_val (cfg_m t))"
  shows "length (draws lib env t) = nat (sint (samples (cfg_m t)))"
  by (simp add: draws_def loop_draws_length [OF assms])

lemma draws_range:
  assumes "sint (min_val (cfg_m t)) \<le> sint (max_val (cfg_m t))" and "dist_contract lib"
  shows "\<forall>d \<in> set (draws lib env t).
           sint (min_val (cfg_m t)) \<le> sint d \<and> sint d \<le> sint (max_val (cfg_m t))"
  unfolding draws_def using assms by (rule loop_draws_range)

lemma exact_sum_bounds:
  assumes "sint (min_val (cfg_m t)) \<le> sint (max_val (cfg_m t))" and "dist_contract lib"
    and "0 \<le> sint (samples (cfg_m t))"
  shows "sint (min_val (cfg_m t)) * sint (samples (cfg_m t)) \<le> exact_sum lib env t \<and>
         exact_sum lib env t \<le> sint (max_val (cfg_m t)) * sint (samples (cfg_m t))"
proof -
  have "\<forall>x \<in> set (map sint (draws lib env t)).
          sint (min_val (cfg_m t)) \<le> x \<and> x \<le> sint (max_val (cfg_m t))"
    using draws_range [OF assms(1,2)] by auto
  from sum_list_bounds [OF this] show ?thesis
    using assms(3) by (simp add: exact_sum_def draws_length [OF assms(1)])
qed

lemma int32_product_bound:
  fixes a b :: int32
  assumes "0 \<le> sint a" "0 \<le> sint b"
  shows "sint a * sint b < 2 ^ 62"
proof -
  have "sint a < 2 ^ 31" "sint b < 2 ^ 31" using sint_lt [of a] sint_lt [of b] by simp_all
  then have "sint a * sint b < 2 ^ 31 * 2 ^ 31"
    using assms by (intro mult_strict_mono) auto
  then show ?thesis by simp
qed

lemma uint_add_no_carry:
  fixes acc :: uint64 and v :: int32
  assumes "0 \<le> sint v" "uint acc + sint v < 2 ^ 64"
  shows "uint (acc + scast v) = uint acc + sint v"
proof -
  have "uint (acc + scast v) = (uint acc + uint (scast v :: uint64)) mod 2 ^ 64"
    by (simp add: uint_word_ariths)
  also have "\<dots> = (uint acc + sint v) mod 2 ^ 64"
    by (simp add: scast_uint_nonneg [OF assms(1)])
  also have "\<dots> = uint acc + sint v"
    using assms by (intro mod_pos_pos_trivial) auto
  finally show ?thesis .
qed

lemma no_wrap_holds:
  assumes "dist_contract lib"
    and "0 \<le> sint (min_val cfg)" and "sint (min_val cfg) \<le> sint (max_val cfg)"
    and "uint acc + sint (max_val cfg) * int (nat (sint (samples cfg) - sint i)) < 2 ^ 64"
  shows "no_wrap lib cfg i rng acc"
  using assms
proof (induction lib cfg i rng acc rule: no_wrap.induct)
  case (1 lib cfg i rng acc)
  show ?case
  proof (cases "sint i < sint (samples cfg)")
    case False
    then show ?thesis by (subst no_wrap.simps) simp
  next
    case True
    let ?v = "fst (dist lib (min_val cfg) (max_val cfg) (eng_m rng))"
    let ?rng = "rng\<lparr>eng_m := snd (dist lib (min_val cfg) (max_val cfg) (eng_m rng))\<rparr>"
    let ?n = "int (nat (sint (samples cfg) - sint i))"
    let ?n' = "int (nat (sint (samples cfg) - sint (i + 1)))"
    have u: "uniform_int lib (min_val cfg) (max_val cfg) rng = Inr (?v, ?rng)"
      using "1.prems"(3) by (rule uniform_int_ok)
    have v: "sint (min_val cfg) \<le> sint ?v" "sint ?v \<le> sint (max_val cfg)"
      using "1.prems"(1,3) unfolding dist_contract_def by blast+
    have n: "?n = ?n' + 1" using True sint_succ_below [OF True] by simp
    have mx: "0 \<le> sint (max_val cfg)" using "1.prems"(2,3) by simp
    have "0 \<le> sint (max_val cfg) * ?n'" using mx by simp
    have bound: "uint acc + sint (max_val cfg) + sint (max_val cfg) * ?n' < 2 ^ 64"
      using "1.prems"(4) unfolding n by (simp add: algebra_simps)
    have v0: "0 \<le> sint ?v" using v(1) "1.prems"(2) by simp
    have fit: "uint acc + sint ?v < 2 ^ 64"
      using bound v(2) \<open>0 \<le> sint (max_val cfg) * ?n'\<close> by linarith
    have "uint (acc + scast ?v) = uint acc + sint ?v" using v0 fit by (rule uint_add_no_carry)
    then have "uint (acc + scast ?v) + sint (max_val cfg) * ?n' < 2 ^ 64"
      using bound v(2) by linarith
    then have "no_wrap lib cfg (i + 1) ?rng (acc + scast ?v)"
      using True u "1.prems"(1,2,3) by (intro "1.IH") auto
    then show ?thesis
      using v0 fit by (subst no_wrap.simps) (simp add: True u)
  qed
qed

lemma word_of_int_uint64_small:
  assumes "0 \<le> k" "k < 2 ^ 64"
  shows "uint (word_of_int k :: uint64) = k"
  using assms by (simp add: uint_word_of_int)

lemma exact_sum_constant:
  assumes "dist_contract lib"
    and "min_val (cfg_m t) = max_val (cfg_m t)"
    and "0 \<le> sint (samples (cfg_m t))"
  shows "exact_sum lib env t = sint (max_val (cfg_m t)) * sint (samples (cfg_m t))"
proof -
  have "sint (min_val (cfg_m t)) \<le> sint (max_val (cfg_m t))" using assms(2) by simp
  from exact_sum_bounds [OF this assms(1,3), of env]
  have "sint (max_val (cfg_m t)) * sint (samples (cfg_m t)) \<le> exact_sum lib env t"
    and "exact_sum lib env t \<le> sint (max_val (cfg_m t)) * sint (samples (cfg_m t))"
    by (simp_all add: assms(2))
  then show ?thesis by (rule order.antisym [rotated])
qed

subsection \<open>The maximum search\<close>

lemma max_element_loop_spec:
  fixes f :: "'a \<Rightarrow> 'b::linorder"
  assumes "largest \<le> first" "first < length xs"
    and "\<forall>j\<le>first. f (xs ! j) \<le> f (xs ! largest)"
    and "\<forall>j<largest. f (xs ! j) < f (xs ! largest)"
  shows "max_element_loop (\<lambda>a b. f a < f b) xs largest first < length xs \<and>
         (\<forall>j<length xs. f (xs ! j) \<le> f (xs ! max_element_loop (\<lambda>a b. f a < f b) xs largest first)) \<and>
         (\<forall>j<max_element_loop (\<lambda>a b. f a < f b) xs largest first.
             f (xs ! j) < f (xs ! max_element_loop (\<lambda>a b. f a < f b) xs largest first))"
  using assms
proof (induction "\<lambda>a b. f a < f b" xs largest first rule: max_element_loop.induct)
  case (1 xs largest first)
  let ?cmp = "\<lambda>a b. f a < f b"
  show ?case
  proof (cases "Suc first < length xs")
    case False
    then have r: "max_element_loop ?cmp xs largest first = largest"
      by (subst max_element_loop.simps) simp
    have "\<forall>j<length xs. j \<le> first" using False by auto
    then show ?thesis unfolding r using "1.prems" by auto
  next
    case True
    let ?l = "if f (xs ! largest) < f (xs ! Suc first) then Suc first else largest"
    have r: "max_element_loop ?cmp xs largest first = max_element_loop ?cmp xs ?l (Suc first)"
      by (subst max_element_loop.simps) (simp add: True)
    have a: "?l \<le> Suc first" using "1.prems"(1) by simp
    have b: "\<forall>j\<le>Suc first. f (xs ! j) \<le> f (xs ! ?l)"
    proof (intro allI impI)
      fix j assume "j \<le> Suc first"
      then consider "j \<le> first" | "j = Suc first" by linarith
      then show "f (xs ! j) \<le> f (xs ! ?l)"
      proof cases
        case 1
        then have "f (xs ! j) \<le> f (xs ! largest)" using "1.prems"(3) by simp
        then show ?thesis by auto
      next
        case 2
        then show ?thesis by auto
      qed
    qed
    have c: "\<forall>j<?l. f (xs ! j) < f (xs ! ?l)"
    proof (cases "f (xs ! largest) < f (xs ! Suc first)")
      case False
      then show ?thesis using "1.prems"(4) by simp
    next
      case lt: True
      have "f (xs ! j) < f (xs ! Suc first)" if "j < Suc first" for j
      proof -
        have "f (xs ! j) \<le> f (xs ! largest)" using that "1.prems"(3) by simp
        with lt show ?thesis by simp
      qed
      with lt show ?thesis by simp
    qed
    show ?thesis unfolding r using True a b c by (intro "1.hyps") 
  qed
qed

lemma max_element_spec:
  fixes f :: "'a \<Rightarrow> 'b::linorder"
  assumes "xs \<noteq> []"
  shows "max_element (\<lambda>a b. f a < f b) xs < length xs \<and>
         (\<forall>j<length xs. f (xs ! j) \<le> f (xs ! max_element (\<lambda>a b. f a < f b) xs)) \<and>
         (\<forall>j<max_element (\<lambda>a b. f a < f b) xs.
             f (xs ! j) < f (xs ! max_element (\<lambda>a b. f a < f b) xs))"
proof -
  have "0 < length xs" using assms by simp
  then show ?thesis
    using assms max_element_loop_spec [of 0 0 xs f] by (simp add: max_element_def)
qed

lemma max_element_empty: "max_element cmp [] = 0"
  by (simp add: max_element_def)

subsection \<open>The constructed tasks\<close>

lemma ctor_task_ids:
  assumes "SumCoordinator_ctor tc s mn mx = Inr c0"
    and "map cfg_m ts = map cfg_m (tasks_m c0)"
  shows "length ts = nat (sint tc) \<and> (\<forall>k < length ts. sint (id_task (ts ! k)) = int k)"
proof -
  have c0: "tasks_m c0 = map (task_at s mn mx) [0 ..< nat (sint tc)]"
    using assms(1) by (simp add: ctor_Inr_iff)
  have len: "length ts = nat (sint tc)"
    using arg_cong [OF assms(2), of length] by (simp add: c0)
  have "sint (id_task (ts ! k)) = int k" if "k < length ts" for k
  proof -
    have "cfg_m (ts ! k) = map cfg_m ts ! k" using that by simp
    also have "\<dots> = cfg_m (task_at s mn mx k)"
      using that len unfolding assms(2) c0 by simp
    finally have "id_task (ts ! k) = word_of_nat k"
      by (simp add: id_task_def task_at_def SumTask_ctor_def)
    moreover have "k < 2 ^ 31" using that len nat_sint_bound [of tc] by simp
    ultimately show ?thesis by (simp add: sint_word_of_nat_small)
  qed
  with len show ?thesis by simp
qed

subsection \<open>Spawning and joining\<close>

lemma map_cfg_update:
  assumes "cfg_m t' = cfg_m (ts ! k)"
  shows "map cfg_m (ts[k := t']) = map cfg_m ts"
proof (cases "k < length ts")
  case True
  with assms show ?thesis by (auto simp: list_eq_iff_nth_eq nth_list_update)
next
  case False
  then have "ts[k := t'] = ts" by (intro list_update_beyond) simp
  then show ?thesis by simp
qed

lemma join_all_preserves:
  "join_all lib env hs ts = Inr (hs', ts') \<Longrightarrow>
   length hs' = length hs \<and> map cfg_m ts' = map cfg_m ts"
proof (induction hs arbitrary: ts hs' ts')
  case Nil
  then show ?case by simp
next
  case (Cons h hs)
  show ?case
  proof (cases "joinable h")
    case False
    with Cons.prems obtain hs1 where "join_all lib env hs ts = Inr (hs1, ts')" "hs' = h # hs1"
      by (auto split: sum.splits)
    with Cons.IH [of ts hs1 ts'] show ?thesis by simp
  next
    case True
    with Cons.prems obtain t1 hs1 where
      r: "run lib (env (target h)) (ts ! target h) = Inr t1"
      and j: "join_all lib env hs (ts[target h := t1]) = Inr (hs1, ts')"
      and h: "hs' = h\<lparr>joinable := False\<rparr> # hs1"
      by (auto split: sum.splits)
    have "map cfg_m (ts[target h := t1]) = map cfg_m ts"
      using run_cfg [OF r] by (rule map_cfg_update)
    with Cons.IH [OF j] h show ?thesis by simp
  qed
qed

lemma join_all_ok:
  assumes "\<forall>t \<in> set ts. sint (min_val (cfg_m t)) \<le> sint (max_val (cfg_m t))"
    and "\<forall>h \<in> set hs. target h < length ts"
  shows "\<exists>r. join_all lib env hs ts = Inr r"
  using assms
proof (induction hs arbitrary: ts)
  case Nil
  then show ?case by simp
next
  case (Cons h hs)
  have tl: "\<forall>h \<in> set hs. target h < length ts" using Cons.prems(2) by simp
  show ?case
  proof (cases "joinable h")
    case False
    from Cons.IH [OF Cons.prems(1) tl] obtain r where "join_all lib env hs ts = Inr r" ..
    with False show ?thesis by (cases r) simp
  next
    case True
    let ?t = "ts ! target h"
    have "?t \<in> set ts" using Cons.prems(2) by simp
    then have ok: "sint (min_val (cfg_m ?t)) \<le> sint (max_val (cfg_m ?t))"
      using Cons.prems(1) by blast
    let ?t1 = "?t\<lparr>result_m := word_of_int (exact_sum lib (env (target h)) ?t)\<rparr>"
    have r: "run lib (env (target h)) ?t = Inr ?t1" using ok by (rule run_eq)
    have "set (ts[target h := ?t1]) \<subseteq> insert ?t1 (set ts)" by (rule set_update_subset_insert)
    then have a: "\<forall>t \<in> set (ts[target h := ?t1]). sint (min_val (cfg_m t)) \<le> sint (max_val (cfg_m t))"
      using Cons.prems(1) ok by auto
    have b: "\<forall>h' \<in> set hs. target h' < length (ts[target h := ?t1])" using tl by simp
    from Cons.IH [OF a b] obtain r' where "join_all lib env hs (ts[target h := ?t1]) = Inr r'" ..
    with True r show ?thesis by (cases r') simp
  qed
qed

lemma run_all_Inr:
  assumes "run_all lib env c = Inr c'"
  shows "length (threads_m c') = length (threads_m c) + length (tasks_m c) \<and>
         map cfg_m (tasks_m c') = map cfg_m (tasks_m c)"
proof -
  from assms obtain hs ts where
    j: "join_all lib env (threads_m (spawn_all c)) (tasks_m (spawn_all c)) = Inr (hs, ts)"
    and c': "c' = \<lparr> tasks_m = ts, threads_m = hs \<rparr>"
    by (auto simp: run_all_def Let_def split: sum.splits)
  show ?thesis
    using join_all_preserves [OF j] by (simp add: c' spawn_all_eq)
qed

lemma run_all_ok:
  assumes "\<forall>t \<in> set (tasks_m c). sint (min_val (cfg_m t)) \<le> sint (max_val (cfg_m t))"
    and "\<forall>h \<in> set (threads_m c). target h < length (tasks_m c)"
  shows "\<exists>c'. run_all lib env c = Inr c'"
proof -
  have "\<forall>h \<in> set (threads_m (spawn_all c)). target h < length (tasks_m (spawn_all c))"
    using assms(2) by (auto simp: spawn_all_eq)
  moreover have "\<forall>t \<in> set (tasks_m (spawn_all c)). sint (min_val (cfg_m t)) \<le> sint (max_val (cfg_m t))"
    using assms(1) by (simp add: spawn_all_eq)
  ultimately obtain r where
    "join_all lib env (threads_m (spawn_all c)) (tasks_m (spawn_all c)) = Inr r"
    using join_all_ok by blast
  then show ?thesis by (cases r) (simp add: run_all_def Let_def)
qed

lemma summaries_ids:
  assumes "SumCoordinator_ctor tc s mn mx = Inr c0"
    and "map cfg_m (tasks_m c) = map cfg_m (tasks_m c0)"
  shows "map (\<lambda>p. sint (fst p)) (summaries c) = map int [0 ..< nat (sint tc)]"
  using ctor_task_ids [OF assms]
  by (simp add: summaries_map list_eq_iff_nth_eq)

subsection \<open>One concrete run\<close>

lemma ctor_eval_3:
  "SumCoordinator_ctor 3 5 1 10 =
     Inr \<lparr> tasks_m = [SumTask_ctor \<lparr> id_cfg = 0, samples = 5, min_val = 1, max_val = 10 \<rparr>,
                      SumTask_ctor \<lparr> id_cfg = 1, samples = 5, min_val = 1, max_val = 10 \<rparr>,
                      SumTask_ctor \<lparr> id_cfg = 2, samples = 5, min_val = 1, max_val = 10 \<rparr>],
           threads_m = [] \<rparr>"
  by (simp add: SumCoordinator_ctor_def vector_max_size_def ctor_loop.simps)

lemma run_all_eval_3:
  "run_all alternating_lib (\<lambda>k. \<lparr> rd_first = 1, now = 2, rd_second = 3 \<rparr>)
     \<lparr> tasks_m = [SumTask_ctor \<lparr> id_cfg = 0, samples = 5, min_val = 1, max_val = 10 \<rparr>,
                  SumTask_ctor \<lparr> id_cfg = 1, samples = 5, min_val = 1, max_val = 10 \<rparr>,
                  SumTask_ctor \<lparr> id_cfg = 2, samples = 5, min_val = 1, max_val = 10 \<rparr>],
       threads_m = [] \<rparr> =
   Inr \<lparr> tasks_m = [\<lparr> cfg_m = \<lparr> id_cfg = 0, samples = 5, min_val = 1, max_val = 10 \<rparr>, result_m = 32 \<rparr>,
                    \<lparr> cfg_m = \<lparr> id_cfg = 1, samples = 5, min_val = 1, max_val = 10 \<rparr>, result_m = 23 \<rparr>,
                    \<lparr> cfg_m = \<lparr> id_cfg = 2, samples = 5, min_val = 1, max_val = 10 \<rparr>, result_m = 32 \<rparr>],
         threads_m = [\<lparr> target = 0, joinable = False \<rparr>, \<lparr> target = 1, joinable = False \<rparr>,
                      \<lparr> target = 2, joinable = False \<rparr>] \<rparr>"
  by (simp add: run_all_def spawn_all_def run_def sum_loop.simps uniform_int_def
      ThreadRNG_ctor_def make_seed_def alternating_lib_def SumTask_ctor_def Let_def)

section \<open>Results before any run\<close>

text \<open>
  C9. Every \<open>SumTask\<close> is constructed with result 0, so on every coordinator that
  the constructor returns, \<open>summaries\<close> called before \<open>run_all\<close> lists \<open>(id, 0)\<close> for
  every task, one pair per task in task order.
\<close>

theorem summaries_before_run_all:
  assumes "SumCoordinator_ctor tc s mn mx = Inr c"
  shows "result (SumTask_ctor cfg) = 0 \<and>
         summaries c = map (\<lambda>t. (id_task t, 0)) (tasks_m c) \<and>
         (\<forall>p \<in> set (summaries c). snd p = 0)"
proof -
  have r0: "result (SumTask_ctor cfg) = 0"
    by (simp add: result_def SumTask_ctor_def)
  have c: "tasks_m c = map (task_at s mn mx) [0 ..< nat (sint tc)]"
    using assms by (simp add: ctor_Inr_iff)
  have "\<forall>t \<in> set (tasks_m c). result t = 0"
    unfolding c by (simp add: task_at_def result_def SumTask_ctor_def)
  then have "summaries c = map (\<lambda>t. (id_task t, 0)) (tasks_m c)"
    by (simp add: summaries_map)
  with r0 show ?thesis by simp
qed

theorem summaries_before_run_all_witness:
  "SumCoordinator_ctor 2 5 1 10 =
     Inr \<lparr> tasks_m = [SumTask_ctor \<lparr> id_cfg = 0, samples = 5, min_val = 1, max_val = 10 \<rparr>,
                      SumTask_ctor \<lparr> id_cfg = 1, samples = 5, min_val = 1, max_val = 10 \<rparr>],
           threads_m = [] \<rparr> \<and>
   summaries \<lparr> tasks_m = [SumTask_ctor \<lparr> id_cfg = 0, samples = 5, min_val = 1, max_val = 10 \<rparr>,
                         SumTask_ctor \<lparr> id_cfg = 1, samples = 5, min_val = 1, max_val = 10 \<rparr>],
              threads_m = [] \<rparr> = [(0, 0), (1, 0)]"
proof -
  have h: "SumCoordinator_ctor 2 5 1 10 =
     Inr \<lparr> tasks_m = [SumTask_ctor \<lparr> id_cfg = 0, samples = 5, min_val = 1, max_val = 10 \<rparr>,
                      SumTask_ctor \<lparr> id_cfg = 1, samples = 5, min_val = 1, max_val = 10 \<rparr>],
           threads_m = [] \<rparr>"
    by (simp add: SumCoordinator_ctor_def vector_max_size_def ctor_loop.simps)
  show ?thesis
    using h summaries_before_run_all [OF h] by (simp add: id_task_def SumTask_ctor_def)
qed

section \<open>The precondition of best\<close>

text \<open>
  C5. \<open>best\<close> is defined exactly on a coordinator with at least one task. With at
  least one task the maximum search returns an iterator into the vector, never the end
  iterator, and \<open>best\<close> returns a pair. With no task the search returns the end
  iterator and line 112 dereferences it, which is undefined.
\<close>

theorem best_defined_iff_nonempty:
  "(tasks_m c \<noteq> [] \<longrightarrow>
      max_element (\<lambda>a b. result a < result b) (tasks_m c) < length (tasks_m c) \<and>
      (\<exists>p. best c = Inr p)) \<and>
   (tasks_m c = [] \<longrightarrow>
      max_element (\<lambda>a b. result a < result b) (tasks_m c) = length (tasks_m c) \<and>
      best c = Inl Undefined_deref_end)"
proof (cases "tasks_m c = []")
  case True
  then show ?thesis by (simp add: best_def max_element_empty)
next
  case False
  then have "max_element (\<lambda>a b. result a < result b) (tasks_m c) < length (tasks_m c)"
    using max_element_spec [of "tasks_m c" result] by simp
  with False show ?thesis by (simp add: best_def Let_def)
qed

theorem best_defined_iff_nonempty_witness:
  "best \<lparr> tasks_m = [\<lparr> cfg_m = \<lparr> id_cfg = 0, samples = 5, min_val = 1, max_val = 10 \<rparr>, result_m = 17 \<rparr>,
                     \<lparr> cfg_m = \<lparr> id_cfg = 1, samples = 5, min_val = 1, max_val = 10 \<rparr>, result_m = 32 \<rparr>],
          threads_m = [] \<rparr> = Inr (1, 32) \<and>
   best \<lparr> tasks_m = [], threads_m = [] \<rparr> = Inl Undefined_deref_end"
  using best_defined_iff_nonempty [of "\<lparr> tasks_m = [], threads_m = [] \<rparr>"]
    best_defined_iff_nonempty [of "\<lparr> tasks_m = [\<lparr> cfg_m = \<lparr> id_cfg = 0, samples = 5, min_val = 1, max_val = 10 \<rparr>, result_m = 17 \<rparr>,
                     \<lparr> cfg_m = \<lparr> id_cfg = 1, samples = 5, min_val = 1, max_val = 10 \<rparr>, result_m = 32 \<rparr>],
          threads_m = [] \<rparr>"]
  by (simp add: best_def max_element_def max_element_loop.simps result_def id_task_def)

section \<open>The best task\<close>

text \<open>
  C1. Take any coordinator that the constructor returns for a positive
  \<open>thread_count\<close>, and let its tasks hold arbitrary results (the configurations are
  those the constructor wrote; the results are free). Then \<open>best\<close> returns one of the
  pairs of \<open>summaries\<close>, its result is the maximum over all pairs, and among the pairs
  with that result it has the smallest id, which is the first in creation order.
\<close>

theorem best_is_first_maximum:
  assumes "SumCoordinator_ctor tc s mn mx = Inr c0"
    and "0 < sint tc"
    and "map cfg_m (tasks_m c) = map cfg_m (tasks_m c0)"
  shows "\<exists>p. best c = Inr p \<and> p \<in> set (summaries c) \<and>
           snd p = Max (snd ` set (summaries c)) \<and>
           (\<forall>q \<in> set (summaries c). snd q = snd p \<longrightarrow> sint (fst p) \<le> sint (fst q))"
proof -
  let ?ts = "tasks_m c"
  let ?k = "max_element (\<lambda>a b. result a < result b) ?ts"
  let ?p = "(id_task (?ts ! ?k), result (?ts ! ?k))"
  have ids: "length ?ts = nat (sint tc)" "\<And>j. j < length ?ts \<Longrightarrow> sint (id_task (?ts ! j)) = int j"
    using ctor_task_ids [OF assms(1) assms(3)] by simp_all
  have ne: "?ts \<noteq> []" using ids(1) assms(2) by auto
  have k: "?k < length ?ts"
    and ge: "\<And>j. j < length ?ts \<Longrightarrow> result (?ts ! j) \<le> result (?ts ! ?k)"
    and first: "\<And>j. j < ?k \<Longrightarrow> result (?ts ! j) < result (?ts ! ?k)"
    using max_element_spec [OF ne, of result] by simp_all
  have b: "best c = Inr ?p" using k by (simp add: best_def Let_def)
  have mem: "?p \<in> set (summaries c)"
    using k by (simp add: summaries_map image_iff) (metis nth_mem)
  have sn: "snd ` set (summaries c) = result ` set ?ts"
    by (simp add: summaries_map image_image)
  have "Max (result ` set ?ts) = result (?ts ! ?k)"
  proof (rule Max_eqI)
    show "finite (result ` set ?ts)" by simp
    show "result (?ts ! ?k) \<in> result ` set ?ts" using k by simp
    fix y assume "y \<in> result ` set ?ts"
    then obtain j where "j < length ?ts" "y = result (?ts ! j)"
      by (auto simp: in_set_conv_nth)
    then show "y \<le> result (?ts ! ?k)" using ge by simp
  qed
  then have mx: "snd ?p = Max (snd ` set (summaries c))" by (simp add: sn)
  have tie: "sint (fst ?p) \<le> sint (fst q)" if "q \<in> set (summaries c)" "snd q = snd ?p" for q
  proof -
    from that(1) obtain j where j: "j < length ?ts" "q = (id_task (?ts ! j), result (?ts ! j))"
      by (auto simp: summaries_map in_set_conv_nth)
    have "\<not> j < ?k" using first [of j] that(2) j(2) by auto
    then have "int ?k \<le> int j" by simp
    then show ?thesis using ids(2) [OF k] ids(2) [OF j(1)] j(2) by simp
  qed
  show ?thesis using b mem mx tie by blast
qed

theorem best_is_first_maximum_witness:
  "0 < sint (3 :: int32) \<and>
   best \<lparr> tasks_m = [\<lparr> cfg_m = \<lparr> id_cfg = 0, samples = 5, min_val = 1, max_val = 10 \<rparr>, result_m = 32 \<rparr>,
                     \<lparr> cfg_m = \<lparr> id_cfg = 1, samples = 5, min_val = 1, max_val = 10 \<rparr>, result_m = 40 \<rparr>,
                     \<lparr> cfg_m = \<lparr> id_cfg = 2, samples = 5, min_val = 1, max_val = 10 \<rparr>, result_m = 40 \<rparr>],
          threads_m = [] \<rparr> = Inr (1, 40)"
proof -
  let ?c = "\<lparr> tasks_m = [\<lparr> cfg_m = \<lparr> id_cfg = 0, samples = 5, min_val = 1, max_val = 10 \<rparr>, result_m = 32 \<rparr>,
                     \<lparr> cfg_m = \<lparr> id_cfg = 1, samples = 5, min_val = 1, max_val = 10 \<rparr>, result_m = 40 \<rparr>,
                     \<lparr> cfg_m = \<lparr> id_cfg = 2, samples = 5, min_val = 1, max_val = 10 \<rparr>, result_m = 40 \<rparr>],
          threads_m = [] \<rparr>"
  have a: "0 < sint (3 :: int32)" by simp
  have m: "map cfg_m (tasks_m ?c) =
      map cfg_m (tasks_m \<lparr> tasks_m = [SumTask_ctor \<lparr> id_cfg = 0, samples = 5, min_val = 1, max_val = 10 \<rparr>,
                      SumTask_ctor \<lparr> id_cfg = 1, samples = 5, min_val = 1, max_val = 10 \<rparr>,
                      SumTask_ctor \<lparr> id_cfg = 2, samples = 5, min_val = 1, max_val = 10 \<rparr>],
           threads_m = [] \<rparr>)"
    by (simp add: SumTask_ctor_def)
  show ?thesis
    using best_is_first_maximum [OF ctor_eval_3 a m]
    by (simp add: best_def max_element_def max_element_loop.simps id_task_def result_def)
qed

section \<open>The ids that summaries lists\<close>

text \<open>
  C3. For \<open>thread_count \<ge> 0\<close> and \<open>min_value \<le> max_value\<close> the constructor returns
  a coordinator, and \<open>summaries\<close> lists exactly \<open>thread_count\<close> pairs whose ids are
  \<open>0, 1, \<dots>, thread_count - 1\<close> in this order, each once. The same holds after
  \<open>run_all\<close>, which returns for every library and every reading of the entropy source
  and the clock.
\<close>

theorem summaries_ids_ascending:
  assumes "0 \<le> sint tc" and "sint mn \<le> sint mx"
  shows "\<exists>c c'. SumCoordinator_ctor tc s mn mx = Inr c \<and>
           map (\<lambda>p. sint (fst p)) (summaries c) = map int [0 ..< nat (sint tc)] \<and>
           run_all lib env c = Inr c' \<and>
           map (\<lambda>p. sint (fst p)) (summaries c') = map int [0 ..< nat (sint tc)]"
proof -
  let ?c = "\<lparr> tasks_m = map (task_at s mn mx) [0 ..< nat (sint tc)], threads_m = [] \<rparr>"
  have c: "SumCoordinator_ctor tc s mn mx = Inr ?c" using assms(1) by (rule ctor_nonneg)
  have "\<forall>t \<in> set (tasks_m ?c). sint (min_val (cfg_m t)) \<le> sint (max_val (cfg_m t))"
    using assms(2) by (simp add: task_at_def SumTask_ctor_def)
  moreover have "\<forall>h \<in> set (threads_m ?c). target h < length (tasks_m ?c)" by simp
  ultimately obtain c' where r: "run_all lib env ?c = Inr c'"
    using run_all_ok by blast
  have "map cfg_m (tasks_m c') = map cfg_m (tasks_m ?c)"
    using run_all_Inr [OF r] by simp
  then have "map (\<lambda>p. sint (fst p)) (summaries c') = map int [0 ..< nat (sint tc)]"
    by (rule summaries_ids [OF c])
  moreover have "map (\<lambda>p. sint (fst p)) (summaries ?c) = map int [0 ..< nat (sint tc)]"
    by (rule summaries_ids [OF c]) simp
  ultimately show ?thesis using c r by blast
qed

theorem summaries_ids_ascending_witness:
  "0 \<le> sint (3 :: int32) \<and> sint (1 :: int32) \<le> sint (10 :: int32) \<and>
   map (\<lambda>p. sint (fst p))
     (summaries
       \<lparr> tasks_m = [\<lparr> cfg_m = \<lparr> id_cfg = 0, samples = 5, min_val = 1, max_val = 10 \<rparr>, result_m = 32 \<rparr>,
                    \<lparr> cfg_m = \<lparr> id_cfg = 1, samples = 5, min_val = 1, max_val = 10 \<rparr>, result_m = 23 \<rparr>,
                    \<lparr> cfg_m = \<lparr> id_cfg = 2, samples = 5, min_val = 1, max_val = 10 \<rparr>, result_m = 32 \<rparr>],
         threads_m = [\<lparr> target = 0, joinable = False \<rparr>, \<lparr> target = 1, joinable = False \<rparr>,
                      \<lparr> target = 2, joinable = False \<rparr>] \<rparr>) = [0, 1, 2]"
proof -
  have a: "0 \<le> sint (3 :: int32)" and b: "sint (1 :: int32) \<le> sint (10 :: int32)" by simp_all
  have u: "[0 ..< nat (sint (3 :: int32))] = [0, 1, 2]" by (simp add: upt_rec)
  show ?thesis
    using summaries_ids_ascending [OF a b, of 5 alternating_lib
        "\<lambda>k. \<lparr> rd_first = 1, now = 2, rd_second = 3 \<rparr>"]
    unfolding ctor_eval_3 u by (auto simp: run_all_eval_3)
qed

section \<open>Tasks and thread handles\<close>

text \<open>
  C8. On a coordinator constructed with \<open>thread_count \<ge> 0\<close>, when one call of
  \<open>run_all\<close> has returned, there are as many stored tasks as stored thread handles
  (and both are \<open>thread_count\<close>).
\<close>

theorem run_all_sizes:
  assumes "0 \<le> sint tc"
    and "SumCoordinator_ctor tc s mn mx = Inr c"
    and "run_all lib env c = Inr c'"
  shows "length (tasks_m c') = length (threads_m c') \<and> length (tasks_m c') = nat (sint tc)"
proof -
  have c: "c = \<lparr> tasks_m = map (task_at s mn mx) [0 ..< nat (sint tc)], threads_m = [] \<rparr>"
    using assms(2) by (simp add: ctor_Inr_iff)
  have "length (threads_m c') = length (threads_m c) + length (tasks_m c)"
    and "length (map cfg_m (tasks_m c')) = length (map cfg_m (tasks_m c))"
    using run_all_Inr [OF assms(3)] by simp_all
  then show ?thesis by (simp add: c)
qed

theorem run_all_sizes_witness:
  "0 \<le> sint (3 :: int32) \<and>
   length (tasks_m
       \<lparr> tasks_m = [\<lparr> cfg_m = \<lparr> id_cfg = 0, samples = 5, min_val = 1, max_val = 10 \<rparr>, result_m = 32 \<rparr>,
                    \<lparr> cfg_m = \<lparr> id_cfg = 1, samples = 5, min_val = 1, max_val = 10 \<rparr>, result_m = 23 \<rparr>,
                    \<lparr> cfg_m = \<lparr> id_cfg = 2, samples = 5, min_val = 1, max_val = 10 \<rparr>, result_m = 32 \<rparr>],
         threads_m = [\<lparr> target = 0, joinable = False \<rparr>, \<lparr> target = 1, joinable = False \<rparr>,
                      \<lparr> target = 2, joinable = False \<rparr>] \<rparr>) = 3"
proof -
  have a: "0 \<le> sint (3 :: int32)" by simp
  show ?thesis
    using run_all_sizes [OF a ctor_eval_3 run_all_eval_3] by simp
qed

section \<open>What the constructor rejects\<close>

text \<open>
  C4, as stated, fails: the constructor validates nothing. With \<open>thread_count = 1\<close>,
  \<open>min_value = 9\<close> and \<open>max_value = 3\<close> lines 79 to 82 reserve one slot and build one
  task carrying the inverted bounds; no error is raised.
\<close>

theorem ctor_accepts_inverted_range:
  "sint (3 :: int32) < sint (9 :: int32) \<and>
   SumCoordinator_ctor 1 5 9 3 =
     Inr \<lparr> tasks_m = [\<lparr> cfg_m = \<lparr> id_cfg = 0, samples = 5, min_val = 9, max_val = 3 \<rparr>,
                        result_m = 0 \<rparr>],
           threads_m = [] \<rparr>"
  by (simp add: SumCoordinator_ctor_def vector_max_size_def ctor_loop.simps SumTask_ctor_def)

text \<open>
  C4, amended. A negative \<open>thread_count\<close> does fail, before any task exists or any
  thread is spawned, though not by a check of the constructor: line 79 converts it to an
  unsigned size above \<open>max_size()\<close> and \<^verbatim>\<open>reserve\<close> throws \<^verbatim>\<open>std::length_error\<close>. For
  \<open>thread_count \<ge> 0\<close> the constructor never fails, whatever the bounds are: it returns
  a coordinator with \<open>thread_count\<close> tasks that carry the given \<open>min_value\<close> and
  \<open>max_value\<close>, and no thread handle.
\<close>

theorem ctor_rejects_only_negative_count:
  "(sint tc < 0 \<longrightarrow> SumCoordinator_ctor tc s mn mx = Inl Length_error) \<and>
   (0 \<le> sint tc \<longrightarrow>
      (\<exists>c. SumCoordinator_ctor tc s mn mx = Inr c \<and>
           length (tasks_m c) = nat (sint tc) \<and> threads_m c = [] \<and>
           (\<forall>t \<in> set (tasks_m c). min_val (cfg_m t) = mn \<and> max_val (cfg_m t) = mx)))"
proof (cases "sint tc < 0")
  case True
  then show ?thesis by (simp add: ctor_neg)
next
  case False
  then have "0 \<le> sint tc" by simp
  then show ?thesis
    by (simp add: ctor_nonneg task_at_def SumTask_ctor_def)
qed

theorem ctor_rejects_only_negative_count_witness:
  "sint (- 1 :: int32) < 0 \<and> SumCoordinator_ctor (- 1) 5 1 10 = Inl Length_error \<and>
   0 \<le> sint (1 :: int32) \<and> sint (3 :: int32) < sint (9 :: int32) \<and>
   SumCoordinator_ctor 1 5 9 3 =
     Inr \<lparr> tasks_m = [SumTask_ctor \<lparr> id_cfg = 0, samples = 5, min_val = 9, max_val = 3 \<rparr>],
           threads_m = [] \<rparr>"
proof -
  have n: "sint (- 1 :: int32) < 0" by simp
  have p: "0 \<le> sint (1 :: int32)" by simp
  have e: "SumCoordinator_ctor 1 5 9 3 =
     Inr \<lparr> tasks_m = [SumTask_ctor \<lparr> id_cfg = 0, samples = 5, min_val = 9, max_val = 3 \<rparr>],
           threads_m = [] \<rparr>"
    by (simp add: SumCoordinator_ctor_def vector_max_size_def ctor_loop.simps)
  show ?thesis
    using n p e ctor_rejects_only_negative_count [of "- 1" 5 1 10]
      ctor_rejects_only_negative_count [of 1 5 9 3]
    by simp
qed

section \<open>A worker without samples\<close>

text \<open>
  C10. When \<open>samples_per_thread \<le> 0\<close>, negative values included, \<open>run\<close> draws
  nothing (the loop body is never entered), returns without a fault and stores the
  result 0, whatever the bounds and whatever the task held before.
\<close>

theorem zero_iterations_when_no_samples:
  assumes "sint (samples (cfg_m t)) \<le> 0"
  shows "draws lib env t = [] \<and> run lib env t = Inr (t\<lparr>result_m := 0\<rparr>)"
  using assms by (simp add: draws_def run_def Let_def loop_draws_none sum_loop_none)

theorem zero_iterations_when_no_samples_witness:
  "sint (samples \<lparr> id_cfg = 0, samples = - 3, min_val = 9, max_val = 3 \<rparr>) \<le> 0 \<and>
   run alternating_lib \<lparr> rd_first = 1, now = 2, rd_second = 3 \<rparr>
     \<lparr> cfg_m = \<lparr> id_cfg = 0, samples = - 3, min_val = 9, max_val = 3 \<rparr>, result_m = 77 \<rparr> =
   Inr \<lparr> cfg_m = \<lparr> id_cfg = 0, samples = - 3, min_val = 9, max_val = 3 \<rparr>, result_m = 0 \<rparr>"
proof -
  have h: "sint (samples (cfg_m \<lparr> cfg_m = \<lparr> id_cfg = 0, samples = - 3, min_val = 9, max_val = 3 \<rparr>, result_m = 77 \<rparr>)) \<le> 0"
    by simp
  show ?thesis
    using zero_iterations_when_no_samples [OF h, of alternating_lib "\<lparr> rd_first = 1, now = 2, rd_second = 3 \<rparr>"]
    by simp
qed

section \<open>Bounds of the result\<close>

text \<open>
  C2, as stated, fails for negative values: line 60 converts each drawn \<^verbatim>\<open>int\<close> to
  \<^verbatim>\<open>std::uint64_t\<close>, so a draw of \<open>-1\<close> is added as \<open>2 ^ 64 - 1\<close>. With
  \<open>min_value = max_value = -1\<close> and one sample the stored result is
  \<open>18446744073709551615\<close>, which is not at most \<open>max_value * samples_per_thread = -1\<close>.
\<close>

theorem result_bounds_negative_counterexample:
  "dist_contract alternating_lib \<and>
   sint (- 1 :: int32) \<le> sint (- 1 :: int32) \<and> 0 \<le> sint (1 :: int32) \<and>
   run alternating_lib \<lparr> rd_first = 1, now = 2, rd_second = 3 \<rparr>
     (SumTask_ctor \<lparr> id_cfg = 0, samples = 1, min_val = - 1, max_val = - 1 \<rparr>) =
   Inr \<lparr> cfg_m = \<lparr> id_cfg = 0, samples = 1, min_val = - 1, max_val = - 1 \<rparr>,
         result_m = 18446744073709551615 \<rparr> \<and>
   \<not> uint (18446744073709551615 :: uint64) \<le> sint (- 1 :: int32) * sint (1 :: int32)"
proof -
  have "run alternating_lib \<lparr> rd_first = 1, now = 2, rd_second = 3 \<rparr>
     (SumTask_ctor \<lparr> id_cfg = 0, samples = 1, min_val = - 1, max_val = - 1 \<rparr>) =
   Inr \<lparr> cfg_m = \<lparr> id_cfg = 0, samples = 1, min_val = - 1, max_val = - 1 \<rparr>,
         result_m = 18446744073709551615 \<rparr>"
    by (simp add: run_def sum_loop.simps uniform_int_def ThreadRNG_ctor_def make_seed_def
        alternating_lib_def SumTask_ctor_def Let_def)
  then show ?thesis by (simp add: alternating_lib_contract)
qed

text \<open>
  C2, amended. For \<open>0 \<le> min_value \<le> max_value\<close> and \<open>samples_per_thread \<ge> 0\<close>,
  and a distribution that keeps its contract, \<open>run\<close> returns and the stored result,
  read as an unsigned number, lies between \<open>min_value * samples_per_thread\<close> and
  \<open>max_value * samples_per_thread\<close>.
\<close>

theorem result_bounds_nonneg:
  assumes "dist_contract lib"
    and "0 \<le> sint (min_val (cfg_m t))"
    and "sint (min_val (cfg_m t)) \<le> sint (max_val (cfg_m t))"
    and "0 \<le> sint (samples (cfg_m t))"
  shows "\<exists>t'. run lib env t = Inr t' \<and>
           sint (min_val (cfg_m t)) * sint (samples (cfg_m t)) \<le> uint (result t') \<and>
           uint (result t') \<le> sint (max_val (cfg_m t)) * sint (samples (cfg_m t))"
proof -
  let ?S = "exact_sum lib env t"
  have b: "sint (min_val (cfg_m t)) * sint (samples (cfg_m t)) \<le> ?S"
    "?S \<le> sint (max_val (cfg_m t)) * sint (samples (cfg_m t))"
    using exact_sum_bounds [OF assms(3,1,4)] by simp_all
  have "0 \<le> sint (min_val (cfg_m t)) * sint (samples (cfg_m t))"
    using assms(2,4) by simp
  then have lo: "0 \<le> ?S" using b(1) by simp
  have "0 \<le> sint (max_val (cfg_m t))" using assms(2,3) by simp
  then have "sint (max_val (cfg_m t)) * sint (samples (cfg_m t)) < 2 ^ 62"
    using assms(4) by (rule int32_product_bound)
  then have hi: "?S < 2 ^ 64" using b(2) by simp
  have "uint (word_of_int ?S :: uint64) = ?S" using lo hi by (rule word_of_int_uint64_small)
  then show ?thesis
    using b by (simp add: run_eq [OF assms(3)] result_def)
qed

theorem result_bounds_nonneg_witness:
  "dist_contract alternating_lib \<and>
   run alternating_lib \<lparr> rd_first = 1, now = 2, rd_second = 3 \<rparr>
     (SumTask_ctor \<lparr> id_cfg = 0, samples = 5, min_val = 1, max_val = 10 \<rparr>) =
   Inr \<lparr> cfg_m = \<lparr> id_cfg = 0, samples = 5, min_val = 1, max_val = 10 \<rparr>, result_m = 32 \<rparr> \<and>
   (1 :: int) * 5 \<le> uint (32 :: uint64) \<and> uint (32 :: uint64) \<le> 10 * 5"
proof -
  let ?t = "SumTask_ctor \<lparr> id_cfg = 0, samples = 5, min_val = 1, max_val = 10 \<rparr>"
  have a: "0 \<le> sint (min_val (cfg_m ?t))" by (simp add: SumTask_ctor_def)
  have b: "sint (min_val (cfg_m ?t)) \<le> sint (max_val (cfg_m ?t))" by (simp add: SumTask_ctor_def)
  have c: "0 \<le> sint (samples (cfg_m ?t))" by (simp add: SumTask_ctor_def)
  have r: "run alternating_lib \<lparr> rd_first = 1, now = 2, rd_second = 3 \<rparr> ?t =
     Inr \<lparr> cfg_m = \<lparr> id_cfg = 0, samples = 5, min_val = 1, max_val = 10 \<rparr>, result_m = 32 \<rparr>"
    by (simp add: run_def sum_loop.simps uniform_int_def ThreadRNG_ctor_def make_seed_def
        alternating_lib_def SumTask_ctor_def Let_def)
  show ?thesis
    using result_bounds_nonneg [OF alternating_lib_contract a b c,
        of "\<lparr> rd_first = 1, now = 2, rd_second = 3 \<rparr>"] r alternating_lib_contract
    by simp
qed

section \<open>Exactness of the accumulation\<close>

text \<open>
  C6, as stated, fails for negative values. With \<open>min_value = max_value = -2\<close> and
  three samples the exact sum of the drawn values is \<open>-6\<close>, the first conversion to
  \<^verbatim>\<open>std::uint64_t\<close> already wraps, and the stored result is \<open>2 ^ 64 - 6\<close>.
\<close>

theorem accumulation_wraps_counterexample:
  "dist_contract alternating_lib \<and>
   sint (- 2 :: int32) \<le> sint (- 2 :: int32) \<and> 0 \<le> sint (3 :: int32) \<and>
   run alternating_lib \<lparr> rd_first = 1, now = 2, rd_second = 3 \<rparr>
     (SumTask_ctor \<lparr> id_cfg = 0, samples = 3, min_val = - 2, max_val = - 2 \<rparr>) =
   Inr \<lparr> cfg_m = \<lparr> id_cfg = 0, samples = 3, min_val = - 2, max_val = - 2 \<rparr>,
         result_m = 18446744073709551610 \<rparr> \<and>
   exact_sum alternating_lib \<lparr> rd_first = 1, now = 2, rd_second = 3 \<rparr>
     (SumTask_ctor \<lparr> id_cfg = 0, samples = 3, min_val = - 2, max_val = - 2 \<rparr>) = - 6 \<and>
   uint (18446744073709551610 :: uint64) \<noteq> - 6 \<and>
   \<not> no_wrap alternating_lib \<lparr> id_cfg = 0, samples = 3, min_val = - 2, max_val = - 2 \<rparr> 0
       (ThreadRNG_ctor alternating_lib \<lparr> rd_first = 1, now = 2, rd_second = 3 \<rparr> 0) 0"
proof -
  have r: "run alternating_lib \<lparr> rd_first = 1, now = 2, rd_second = 3 \<rparr>
     (SumTask_ctor \<lparr> id_cfg = 0, samples = 3, min_val = - 2, max_val = - 2 \<rparr>) =
   Inr \<lparr> cfg_m = \<lparr> id_cfg = 0, samples = 3, min_val = - 2, max_val = - 2 \<rparr>,
         result_m = 18446744073709551610 \<rparr>"
    by (simp add: run_def sum_loop.simps uniform_int_def ThreadRNG_ctor_def make_seed_def
        alternating_lib_def SumTask_ctor_def Let_def)
  have e: "exact_sum alternating_lib \<lparr> rd_first = 1, now = 2, rd_second = 3 \<rparr>
     (SumTask_ctor \<lparr> id_cfg = 0, samples = 3, min_val = - 2, max_val = - 2 \<rparr>) = - 6"
    by (simp add: exact_sum_def draws_def loop_draws.simps uniform_int_def ThreadRNG_ctor_def
        make_seed_def alternating_lib_def SumTask_ctor_def)
  have n: "\<not> no_wrap alternating_lib \<lparr> id_cfg = 0, samples = 3, min_val = - 2, max_val = - 2 \<rparr> 0
       (ThreadRNG_ctor alternating_lib \<lparr> rd_first = 1, now = 2, rd_second = 3 \<rparr> 0) 0"
    by (simp add: no_wrap.simps uniform_int_def ThreadRNG_ctor_def make_seed_def alternating_lib_def)
  show ?thesis using r e n by (simp add: alternating_lib_contract)
qed

text \<open>
  C6, amended. For \<open>0 \<le> min_value \<le> max_value\<close> and \<open>samples_per_thread \<ge> 0\<close>,
  and a distribution that keeps its contract, \<open>run\<close> returns, it draws
  \<open>samples_per_thread\<close> values, no step of the accumulation wraps around, and the
  stored result equals the exact sum of the drawn values over the unbounded integers,
  however large \<open>samples_per_thread\<close> and \<open>max_value\<close> are within \<^verbatim>\<open>int\<close>.
\<close>

theorem accumulation_exact_nonneg:
  assumes "dist_contract lib"
    and "0 \<le> sint (min_val (cfg_m t))"
    and "sint (min_val (cfg_m t)) \<le> sint (max_val (cfg_m t))"
    and "0 \<le> sint (samples (cfg_m t))"
  shows "\<exists>t'. run lib env t = Inr t' \<and>
           uint (result t') = exact_sum lib env t \<and>
           length (draws lib env t) = nat (sint (samples (cfg_m t))) \<and>
           no_wrap lib (cfg_m t) 0 (ThreadRNG_ctor lib env (id_cfg (cfg_m t))) 0"
proof -
  let ?S = "exact_sum lib env t"
  have b: "sint (min_val (cfg_m t)) * sint (samples (cfg_m t)) \<le> ?S"
    "?S \<le> sint (max_val (cfg_m t)) * sint (samples (cfg_m t))"
    using exact_sum_bounds [OF assms(3,1,4)] by simp_all
  have "0 \<le> sint (min_val (cfg_m t)) * sint (samples (cfg_m t))"
    using assms(2,4) by simp
  then have lo: "0 \<le> ?S" using b(1) by simp
  have "0 \<le> sint (max_val (cfg_m t))" using assms(2,3) by simp
  then have p: "sint (max_val (cfg_m t)) * sint (samples (cfg_m t)) < 2 ^ 62"
    using assms(4) by (rule int32_product_bound)
  then have hi: "?S < 2 ^ 64" using b(2) by simp
  have e: "uint (word_of_int ?S :: uint64) = ?S" using lo hi by (rule word_of_int_uint64_small)
  have "uint (0 :: uint64) +
      sint (max_val (cfg_m t)) * int (nat (sint (samples (cfg_m t)) - sint (0 :: int32))) < 2 ^ 64"
    using p assms(4) by simp
  then have nw: "no_wrap lib (cfg_m t) 0 (ThreadRNG_ctor lib env (id_cfg (cfg_m t))) 0"
    by (rule no_wrap_holds [OF assms(1,2,3)])
  show ?thesis
    using e nw by (simp add: run_eq [OF assms(3)] result_def draws_length [OF assms(3)])
qed

theorem accumulation_exact_nonneg_witness:
  "dist_contract alternating_lib \<and>
   run alternating_lib \<lparr> rd_first = 1, now = 2, rd_second = 3 \<rparr>
     (SumTask_ctor \<lparr> id_cfg = 1, samples = 5, min_val = 1, max_val = 10 \<rparr>) =
   Inr \<lparr> cfg_m = \<lparr> id_cfg = 1, samples = 5, min_val = 1, max_val = 10 \<rparr>, result_m = 23 \<rparr> \<and>
   draws alternating_lib \<lparr> rd_first = 1, now = 2, rd_second = 3 \<rparr>
     (SumTask_ctor \<lparr> id_cfg = 1, samples = 5, min_val = 1, max_val = 10 \<rparr>) = [1, 10, 1, 10, 1] \<and>
   exact_sum alternating_lib \<lparr> rd_first = 1, now = 2, rd_second = 3 \<rparr>
     (SumTask_ctor \<lparr> id_cfg = 1, samples = 5, min_val = 1, max_val = 10 \<rparr>) = 23"
proof -
  let ?t = "SumTask_ctor \<lparr> id_cfg = 1, samples = 5, min_val = 1, max_val = 10 \<rparr>"
  have a: "0 \<le> sint (min_val (cfg_m ?t))" by (simp add: SumTask_ctor_def)
  have b: "sint (min_val (cfg_m ?t)) \<le> sint (max_val (cfg_m ?t))" by (simp add: SumTask_ctor_def)
  have c: "0 \<le> sint (samples (cfg_m ?t))" by (simp add: SumTask_ctor_def)
  have d: "draws alternating_lib \<lparr> rd_first = 1, now = 2, rd_second = 3 \<rparr> ?t = [1, 10, 1, 10, 1]"
    by (simp add: draws_def loop_draws.simps uniform_int_def ThreadRNG_ctor_def make_seed_def
        alternating_lib_def SumTask_ctor_def)
  have r: "run alternating_lib \<lparr> rd_first = 1, now = 2, rd_second = 3 \<rparr> ?t =
     Inr \<lparr> cfg_m = \<lparr> id_cfg = 1, samples = 5, min_val = 1, max_val = 10 \<rparr>, result_m = 23 \<rparr>"
    by (simp add: run_def sum_loop.simps uniform_int_def ThreadRNG_ctor_def make_seed_def
        alternating_lib_def SumTask_ctor_def Let_def)
  show ?thesis
    using accumulation_exact_nonneg [OF alternating_lib_contract a b c,
        of "\<lparr> rd_first = 1, now = 2, rd_second = 3 \<rparr>"] r d alternating_lib_contract
    by (simp add: exact_sum_def)
qed

section \<open>A range of one value\<close>

text \<open>
  C7. For \<open>thread_count = 1\<close>, \<open>samples_per_thread = 5\<close> and
  \<open>min_value = max_value = 7\<close>, with every library whose distribution keeps its
  contract and every reading of the entropy source and the clock, the constructor
  returns, \<open>run_all\<close> returns, worker 0 holds the result 35 and \<open>best\<close> returns
  \<open>(0, 35)\<close>.
\<close>

theorem constant_range_run:
  assumes "dist_contract lib"
  shows "\<exists>c c'. SumCoordinator_ctor 1 5 7 7 = Inr c \<and> run_all lib env c = Inr c' \<and>
           map result (tasks_m c') = [35] \<and> summaries c' = [(0, 35)] \<and>
           best c' = Inr (0, 35)"
proof -
  let ?cfg = "\<lparr> id_cfg = 0, samples = 5, min_val = 7, max_val = 7 \<rparr>"
  let ?t = "\<lparr> cfg_m = ?cfg, result_m = 0 \<rparr>"
  let ?c = "\<lparr> tasks_m = [?t], threads_m = [] \<rparr>"
  let ?t' = "\<lparr> cfg_m = ?cfg, result_m = 35 \<rparr>"
  let ?c' = "\<lparr> tasks_m = [?t'], threads_m = [\<lparr> target = 0, joinable = False \<rparr>] \<rparr>"
  have c: "SumCoordinator_ctor 1 5 7 7 = Inr ?c"
    by (simp add: SumCoordinator_ctor_def vector_max_size_def ctor_loop.simps SumTask_ctor_def)
  have "exact_sum lib (env 0) ?t = sint (max_val (cfg_m ?t)) * sint (samples (cfg_m ?t))"
    using assms by (rule exact_sum_constant) simp_all
  then have e: "exact_sum lib (env 0) ?t = 35" by simp
  have "sint (min_val (cfg_m ?t)) \<le> sint (max_val (cfg_m ?t))" by simp
  then have "run lib (env 0) ?t = Inr (?t\<lparr>result_m := word_of_int (exact_sum lib (env 0) ?t)\<rparr>)"
    by (rule run_eq)
  then have r: "run lib (env 0) ?t = Inr ?t'" by (simp add: e)
  have ra: "run_all lib env ?c = Inr ?c'"
    by (simp add: run_all_def spawn_all_def r Let_def)
  have s: "summaries ?c' = [(0, 35)]"
    by (simp add: summaries_def id_task_def result_def)
  have b: "best ?c' = Inr (0, 35)"
    by (simp add: best_def max_element_def max_element_loop.simps id_task_def result_def)
  have m: "map result (tasks_m ?c') = [35]" by (simp add: result_def)
  have "SumCoordinator_ctor 1 5 7 7 = Inr ?c \<and> run_all lib env ?c = Inr ?c' \<and>
      map result (tasks_m ?c') = [35] \<and> summaries ?c' = [(0, 35)] \<and> best ?c' = Inr (0, 35)"
    using c ra s b m by (intro conjI)
  then show ?thesis by (intro exI)
qed

theorem constant_range_run_witness:
  "dist_contract alternating_lib \<and>
   run_all alternating_lib (\<lambda>k. \<lparr> rd_first = 11, now = 12, rd_second = 13 \<rparr>)
     \<lparr> tasks_m = [SumTask_ctor \<lparr> id_cfg = 0, samples = 5, min_val = 7, max_val = 7 \<rparr>],
       threads_m = [] \<rparr> =
   Inr \<lparr> tasks_m = [\<lparr> cfg_m = \<lparr> id_cfg = 0, samples = 5, min_val = 7, max_val = 7 \<rparr>,
                       result_m = 35 \<rparr>],
         threads_m = [\<lparr> target = 0, joinable = False \<rparr>] \<rparr>"
proof -
  have c: "SumCoordinator_ctor 1 5 7 7 =
      Inr \<lparr> tasks_m = [SumTask_ctor \<lparr> id_cfg = 0, samples = 5, min_val = 7, max_val = 7 \<rparr>],
            threads_m = [] \<rparr>"
    by (simp add: SumCoordinator_ctor_def vector_max_size_def ctor_loop.simps)
  from constant_range_run [OF alternating_lib_contract,
      of "\<lambda>k. \<lparr> rd_first = 11, now = 12, rd_second = 13 \<rparr>"]
  obtain c' where
    r: "run_all alternating_lib (\<lambda>k. \<lparr> rd_first = 11, now = 12, rd_second = 13 \<rparr>)
     \<lparr> tasks_m = [SumTask_ctor \<lparr> id_cfg = 0, samples = 5, min_val = 7, max_val = 7 \<rparr>],
       threads_m = [] \<rparr> = Inr c'"
    unfolding c by auto
  have "run_all alternating_lib (\<lambda>k. \<lparr> rd_first = 11, now = 12, rd_second = 13 \<rparr>)
     \<lparr> tasks_m = [SumTask_ctor \<lparr> id_cfg = 0, samples = 5, min_val = 7, max_val = 7 \<rparr>],
       threads_m = [] \<rparr> =
   Inr \<lparr> tasks_m = [\<lparr> cfg_m = \<lparr> id_cfg = 0, samples = 5, min_val = 7, max_val = 7 \<rparr>,
                       result_m = 35 \<rparr>],
         threads_m = [\<lparr> target = 0, joinable = False \<rparr>] \<rparr>"
    by (simp add: run_all_def spawn_all_def run_def sum_loop.simps uniform_int_def
      ThreadRNG_ctor_def make_seed_def alternating_lib_def SumTask_ctor_def Let_def)
  with r show ?thesis by (simp add: alternating_lib_contract)
qed

end
